theory Spec2Isabelle
  imports Main "HOL-Library.Multiset" "HOL-Library.Word"
begin

section \<open>The database the scripts run against\<close>

text \<open>
  The three scripts (\<^verbatim>\<open>migrate_cs125_current.py\<close>, \<^verbatim>\<open>migrate_power_save_mode.py\<close>,
  \<^verbatim>\<open>migrate_images.py\<close>) talk to one SQLite file through Python's \<^verbatim>\<open>sqlite3\<close> module.
  The scripts are embedded statement by statement; the engine is the part of SQLite
  those statements use: tables with named columns, \<^verbatim>\<open>NOT NULL\<close>, defaults, the
  \<^verbatim>\<open>INTEGER PRIMARY KEY\<close> rowid with \<^verbatim>\<open>AUTOINCREMENT\<close>, indexes by name, and one
  connection with its transaction. Views, triggers, foreign keys, \<^verbatim>\<open>UNIQUE\<close> and
  \<^verbatim>\<open>CHECK\<close> constraints and other connections are not part of a database value: where
  they make the engine refuse a statement, that refusal is one of the faults of the
  environment (\<open>faults\<close> below), like a locked file or a disk error.
\<close>

subsection \<open>Values and names\<close>

text \<open>
  A stored value has one of SQLite's five storage classes. A \<^verbatim>\<open>REAL\<close> is kept as the
  64 bits of its IEEE double; text and blobs are byte strings.
\<close>

datatype sqlval = VNull | VInt int | VReal "64 word" | VText string | VBlob string

text \<open>
  SQLite compares identifiers and the operands of \<^verbatim>\<open>LIKE\<close> without regard to the case
  of the 26 ASCII letters. Python's \<^verbatim>\<open>in\<close> and \<^verbatim>\<open>==\<close> on strings compare exactly.

  An upper-case ASCII letter is a byte from \<^verbatim>\<open>0x41\<close> to \<^verbatim>\<open>0x5A\<close>: bit 7 clear, bit 6 set,
  bit 5 clear, and the low five bits a number from 1 to 26. Its lower-case letter is the
  same byte with bit 5 set. Every other byte stays as it is.
\<close>

fun ascii_lower :: "char \<Rightarrow> char" where
  "ascii_lower (Char b0 b1 b2 b3 b4 b5 b6 b7) =
     (if \<not> b7 \<and> b6 \<and> \<not> b5 \<and> (b0 \<or> b1 \<or> b2 \<or> b3 \<or> b4) \<and> \<not> (b4 \<and> b3 \<and> (b2 \<or> (b1 \<and> b0)))
      then Char b0 b1 b2 b3 b4 True b6 b7
      else Char b0 b1 b2 b3 b4 b5 b6 b7)"

definition fold_name :: "string \<Rightarrow> string" where
  "fold_name s = map ascii_lower s"

subsection \<open>Columns, tables, databases\<close>

datatype default = Literal sqlval | CurrentTimestamp

text \<open>
  One row of \<^verbatim>\<open>PRAGMA table_info\<close>: the name (\<^verbatim>\<open>col[1]\<close> in the scripts), the declared
  type, \<^verbatim>\<open>NOT NULL\<close>, the default and the primary-key flag; \<open>autoinc\<close> is the
  \<^verbatim>\<open>AUTOINCREMENT\<close> keyword of the declaration.
\<close>

record column =
  cname :: string
  ctype :: string
  notnull :: bool
  dflt :: "default option"
  pk :: bool
  autoinc :: bool

text \<open>
  A row is a tuple of values aligned with the table's columns. \<open>sequence\<close> is the
  table's entry in \<^verbatim>\<open>sqlite_sequence\<close> (the largest rowid an \<^verbatim>\<open>AUTOINCREMENT\<close> table ever
  held, 0 at creation).
\<close>

record table =
  cols :: "column list"
  rows :: "sqlval list list"
  sequence :: int

text \<open>
  Tables and indexes are found under their names folded to lower case; every name the
  scripts use is written in lower case. An index is on a table and some of its columns.
\<close>

record db =
  tables :: "string \<rightharpoonup> table"
  indexes :: "string \<rightharpoonup> string \<times> string list"

definition has_column :: "table \<Rightarrow> string \<Rightarrow> bool" where
  "has_column T c = (fold_name c \<in> set (map (fold_name \<circ> cname) (cols T)))"

text \<open>
  The value a row holds in a column. A column that does not resolve, or a row shorter
  than the column list, reads as \<^verbatim>\<open>NULL\<close>; the statements below check that the column
  resolves before they read it.
\<close>

definition cell :: "table \<Rightarrow> sqlval list \<Rightarrow> string \<Rightarrow> sqlval" where
  "cell T r c =
     (case map_of (zip (map (fold_name \<circ> cname) (cols T)) r) (fold_name c) of
        Some v \<Rightarrow> v
      | None \<Rightarrow> VNull)"


subsection \<open>Errors and the environment of a run\<close>

text \<open>
  The exceptions a run can meet. The first group is what the engine raises from the
  state of the database alone. \<open>Refused\<close> stands for every refusal that comes from
  outside the database value (the file cannot be opened, it is locked, the disk fails, a
  constraint or trigger outside this model objects). \<open>UnboundLocalError\<close> is Python's,
  for a local variable read before it was assigned.
\<close>

datatype error =
    NoSuchTable string
  | NoSuchColumn string
  | AlreadyExists string
  | NotNullFailed string
  | UniqueFailed string
  | DatatypeMismatch
  | DatabaseFull
  | TransactionWithinTransaction
  | Refused string
  | UnboundLocalError string

text \<open>
  Every call a script makes on the connection has a label, in the order of the source.
  The first group is the two column-drop scripts, the second the image script.
\<close>

datatype step =
    Connect | Begin | TableInfo | CreateNew | CopyRows | DropOld | RenameNew
  | CreateIndex | Commit | Verify | Rollback | Close
  | CountFits | CountOasc | InsertFits | DeleteFits | FinalEwcs | FinalOasc

text \<open>
  What a run does not decide itself:
  \<^item> \<open>faults\<close>: the calls the engine refuses for a reason outside the database value,
    with the exception raised;
  \<^item> \<open>affinity\<close>: the conversion SQLite applies to a value before it is stored in a
    column of the given declared type (text that looks like a number into an
    \<^verbatim>\<open>INTEGER\<close> column, an integer into a \<^verbatim>\<open>REAL\<close> column, and so on); nothing is
    assumed about it;
  \<^item> \<open>now\<close>: the value of \<^verbatim>\<open>CURRENT_TIMESTAMP\<close>.
\<close>

record env =
  faults :: "step \<Rightarrow> error option"
  affinity :: "string \<Rightarrow> sqlval \<Rightarrow> sqlval"
  now :: sqlval

subsection \<open>The statements the scripts issue\<close>

text \<open>
  \<open>LikeFits c\<close> is the condition \<^verbatim>\<open>c LIKE '%.fits'\<close>. \<open>InsertSelect t ins sel s w\<close> is
  \<^verbatim>\<open>INSERT INTO t (ins) SELECT sel FROM s WHERE w\<close>.
\<close>

datatype cond = LikeFits string

datatype stmt =
    BeginTransaction
  | PragmaTableInfo string
  | CreateTable string "column list"
  | InsertSelect string "string list" "string list" string "cond option"
  | DropTable string
  | AlterTableRename string string
  | CreateIndexIfNotExists string string "string list"
  | SelectCount string "cond option"
  | DeleteFrom string "cond option"

text \<open>
  What the cursor holds after a statement: the rows of \<^verbatim>\<open>table_info\<close>, the single
  number of a \<^verbatim>\<open>COUNT(*)\<close>, or \<^verbatim>\<open>cursor.rowcount\<close> after an insert or delete.
\<close>

datatype reply = Done | Info "column list" | Counted nat | Changed nat

fun info_rows :: "reply \<Rightarrow> column list" where
  "info_rows (Info cs) = cs"
| "info_rows _ = []"

fun count_of :: "reply \<Rightarrow> int" where
  "count_of (Counted n) = int n"
| "count_of _ = 0"

fun rowcount :: "reply \<Rightarrow> int" where
  "rowcount (Changed n) = int n"
| "rowcount _ = -1"

subsection \<open>Conditions\<close>

text \<open>
  \<^verbatim>\<open>LIKE\<close> reads its left operand as text: of a text or blob value the bytes up to the
  first zero byte; \<^verbatim>\<open>NULL\<close> never matches; the text of a number ends in a digit or in
  \<^verbatim>\<open>Inf\<close>, so it never matches \<^verbatim>\<open>'%.fits'\<close>. Letters compare without case.
\<close>

definition like_text :: "string \<Rightarrow> string" where
  "like_text s = fold_name (takeWhile (\<lambda>c. c \<noteq> CHR 0x00) s)"

definition ends_with :: "string \<Rightarrow> string \<Rightarrow> bool" where
  "ends_with suffix s = (length suffix \<le> length s \<and> drop (length s - length suffix) s = suffix)"

fun like_fits :: "sqlval \<Rightarrow> bool" where
  "like_fits (VText s) = ends_with ''.fits'' (like_text s)"
| "like_fits (VBlob s) = ends_with ''.fits'' (like_text s)"
| "like_fits _ = False"

fun cond_column :: "cond \<Rightarrow> string" where
  "cond_column (LikeFits c) = c"

fun holds :: "table \<Rightarrow> cond option \<Rightarrow> sqlval list \<Rightarrow> bool" where
  "holds T None r = True"
| "holds T (Some (LikeFits c)) r = like_fits (cell T r c)"

definition cond_resolves :: "table \<Rightarrow> cond option \<Rightarrow> bool" where
  "cond_resolves T w = (case w of None \<Rightarrow> True | Some q \<Rightarrow> has_column T (cond_column q))"

subsection \<open>Storing a row\<close>

text \<open>
  A column declared \<^verbatim>\<open>INTEGER PRIMARY KEY\<close> is the table's rowid.
\<close>

definition is_rowid :: "column \<Rightarrow> bool" where
  "is_rowid col = (pk col \<and> fold_name (ctype col) = ''integer'')"

definition used_ids :: "table \<Rightarrow> int list" where
  "used_ids T =
     concat (map (\<lambda>r. concat (map (\<lambda>(col, v). case v of VInt i \<Rightarrow> if is_rowid col then [i] else [] | _ \<Rightarrow> [])
                                    (zip (cols T) r)))
                 (rows T))"

text \<open>
  The rowid the engine picks for a row that brings none: one more than the largest in
  use (1 in an empty table), and with \<^verbatim>\<open>AUTOINCREMENT\<close> more than the table's sequence
  too.
\<close>

definition next_rowid :: "column \<Rightarrow> table \<Rightarrow> int" where
  "next_rowid col T =
     (let n = (if used_ids T = [] then 1 else Max (set (used_ids T)) + 1)
      in if autoinc col then max n (sequence T + 1) else n)"

text \<open>
  The value stored in column \<open>col\<close> of table \<open>t\<close> for the incoming value \<open>v0\<close>: converted
  by the column's affinity; in the rowid column an integer not in use, a fresh rowid
  for \<^verbatim>\<open>NULL\<close>, and nothing else; elsewhere not \<^verbatim>\<open>NULL\<close> where the column says so.
\<close>

definition place :: "env \<Rightarrow> string \<Rightarrow> table \<Rightarrow> column \<Rightarrow> sqlval \<Rightarrow> error + sqlval" where
  "place env t T col v0 =
     (let v = affinity env (ctype col) v0 in
      if is_rowid col then
        (case v of
           VInt i \<Rightarrow>
             if i \<in> set (used_ids T) then Inl (UniqueFailed (t @ ''.'' @ cname col))
             else Inr (VInt i)
         | VNull \<Rightarrow>
             if next_rowid col T > 9223372036854775807 then Inl DatabaseFull
             else Inr (VInt (next_rowid col T))
         | _ \<Rightarrow> Inl DatatypeMismatch)
      else if notnull col \<and> v = VNull then Inl (NotNullFailed (t @ ''.'' @ cname col))
      else Inr v)"

text \<open>
  The incoming value of a column: the one the statement lists for it, else its default.
\<close>

definition incoming :: "env \<Rightarrow> string list \<Rightarrow> sqlval list \<Rightarrow> column \<Rightarrow> sqlval" where
  "incoming env ins vs col =
     (case map_of (zip (map fold_name ins) vs) (fold_name (cname col)) of
        Some v \<Rightarrow> v
      | None \<Rightarrow>
         (case dflt col of
            None \<Rightarrow> VNull
          | Some (Literal v) \<Rightarrow> v
          | Some CurrentTimestamp \<Rightarrow> now env))"

fun place_all ::
  "env \<Rightarrow> string \<Rightarrow> table \<Rightarrow> string list \<Rightarrow> sqlval list \<Rightarrow> column list \<Rightarrow> error + sqlval list" where
  "place_all env t T ins vs [] = Inr []"
| "place_all env t T ins vs (col # cs) =
     (case place env t T col (incoming env ins vs col) of
        Inl e \<Rightarrow> Inl e
      | Inr v \<Rightarrow>
         (case place_all env t T ins vs cs of
            Inl e \<Rightarrow> Inl e
          | Inr r \<Rightarrow> Inr (v # r)))"

text \<open>
  One row goes in at the end; an \<^verbatim>\<open>AUTOINCREMENT\<close> table remembers the largest rowid.
\<close>

definition insert_row ::
  "env \<Rightarrow> string \<Rightarrow> string list \<Rightarrow> table \<Rightarrow> sqlval list \<Rightarrow> error + table" where
  "insert_row env t ins T vs =
     (case place_all env t T ins vs (cols T) of
        Inl e \<Rightarrow> Inl e
      | Inr r \<Rightarrow>
         (let ids = used_ids (T\<lparr>rows := [r]\<rparr>)
          in Inr (T\<lparr>rows := rows T @ [r],
                    sequence := (if list_ex (\<lambda>col. is_rowid col \<and> autoinc col) (cols T) \<and> ids \<noteq> []
                                 then max (sequence T) (Max (set ids))
                                 else sequence T)\<rparr>)))"

fun insert_rows ::
  "env \<Rightarrow> string \<Rightarrow> string list \<Rightarrow> table \<Rightarrow> sqlval list list \<Rightarrow> error + table" where
  "insert_rows env t ins T [] = Inr T"
| "insert_rows env t ins T (vs # rest) =
     (case insert_row env t ins T vs of
        Inl e \<Rightarrow> Inl e
      | Inr T' \<Rightarrow> insert_rows env t ins T' rest)"


subsection \<open>What a statement does to the database\<close>

definition columns_resolve :: "table \<Rightarrow> string list \<Rightarrow> bool" where
  "columns_resolve T cs = list_all (has_column T) cs"

definition first_missing :: "table \<Rightarrow> string list \<Rightarrow> string" where
  "first_missing T cs = (case filter (\<lambda>c. \<not> has_column T c) cs of [] \<Rightarrow> [] | c # _ \<Rightarrow> c)"

text \<open>
  Dropping a table drops its indexes; renaming it takes them along.
\<close>

definition drop_indexes_of :: "string \<Rightarrow> (string \<rightharpoonup> string \<times> string list) \<Rightarrow> (string \<rightharpoonup> string \<times> string list)" where
  "drop_indexes_of t ix =
     (\<lambda>n. case ix n of None \<Rightarrow> None | Some (t', cs) \<Rightarrow> if t' = t then None else Some (t', cs))"

definition move_indexes :: "string \<Rightarrow> string \<Rightarrow> (string \<rightharpoonup> string \<times> string list) \<Rightarrow> (string \<rightharpoonup> string \<times> string list)" where
  "move_indexes a b ix =
     (\<lambda>n. case ix n of None \<Rightarrow> None | Some (t', cs) \<Rightarrow> if t' = a then Some (b, cs) else Some (t', cs))"

text \<open>
  The statements other than \<^verbatim>\<open>BEGIN\<close>, on the database as the connection sees it: the
  exception raised, or the new database and what the cursor holds.
  \<^item> \<^verbatim>\<open>PRAGMA table_info\<close> of a table that does not exist returns no rows.
  \<^item> \<^verbatim>\<open>CREATE TABLE\<close> fails when a table or index has the name.
  \<^item> \<^verbatim>\<open>INSERT ... SELECT\<close> needs both tables and every listed column; it reads the
    matching rows of the source in order and stores them one by one; when a row is
    refused the statement as a whole has no effect.
  \<^item> \<^verbatim>\<open>ALTER TABLE ... RENAME TO\<close> fails when the new name is taken.
  \<^item> \<^verbatim>\<open>CREATE INDEX IF NOT EXISTS\<close> needs the table, fails when a table has the index's
    name, and does nothing when an index of that name exists.
\<close>

fun sql :: "env \<Rightarrow> stmt \<Rightarrow> db \<Rightarrow> error + (db \<times> reply)" where
  "sql env BeginTransaction d = Inr (d, Done)"
| "sql env (PragmaTableInfo t) d =
     Inr (d, Info (case tables d t of None \<Rightarrow> [] | Some T \<Rightarrow> cols T))"
| "sql env (CreateTable t cs) d =
     (if tables d t \<noteq> None \<or> indexes d t \<noteq> None then Inl (AlreadyExists t)
      else Inr (d\<lparr>tables := (tables d)(t \<mapsto> \<lparr>cols = cs, rows = [], sequence = 0\<rparr>)\<rparr>, Done))"
| "sql env (InsertSelect t ins sel s w) d =
     (case tables d t of
        None \<Rightarrow> Inl (NoSuchTable t)
      | Some T \<Rightarrow>
         (case tables d s of
            None \<Rightarrow> Inl (NoSuchTable s)
          | Some S \<Rightarrow>
             if \<not> columns_resolve T ins then Inl (NoSuchColumn (first_missing T ins))
             else if \<not> columns_resolve S sel then Inl (NoSuchColumn (first_missing S sel))
             else if \<not> cond_resolves S w then Inl (NoSuchColumn (first_missing S (map cond_column (case w of None \<Rightarrow> [] | Some q \<Rightarrow> [q]))))
             else
               (let picked = map (\<lambda>r. map (cell S r) sel) (filter (holds S w) (rows S))
                in case insert_rows env t ins T picked of
                     Inl e \<Rightarrow> Inl e
                   | Inr T' \<Rightarrow> Inr (d\<lparr>tables := (tables d)(t \<mapsto> T')\<rparr>, Changed (length picked)))))"
| "sql env (DropTable t) d =
     (case tables d t of
        None \<Rightarrow> Inl (NoSuchTable t)
      | Some T \<Rightarrow>
         Inr (d\<lparr>tables := (tables d)(t := None), indexes := drop_indexes_of t (indexes d)\<rparr>, Done))"
| "sql env (AlterTableRename a b) d =
     (case tables d a of
        None \<Rightarrow> Inl (NoSuchTable a)
      | Some T \<Rightarrow>
         if tables d b \<noteq> None \<or> indexes d b \<noteq> None then Inl (AlreadyExists b)
         else Inr (d\<lparr>tables := (tables d)(a := None, b \<mapsto> T),
                     indexes := move_indexes a b (indexes d)\<rparr>, Done))"
| "sql env (CreateIndexIfNotExists i t cs) d =
     (case tables d t of
        None \<Rightarrow> Inl (NoSuchTable t)
      | Some T \<Rightarrow>
         if tables d i \<noteq> None then Inl (AlreadyExists i)
         else if indexes d i \<noteq> None then Inr (d, Done)
         else if \<not> columns_resolve T cs then Inl (NoSuchColumn (first_missing T cs))
         else Inr (d\<lparr>indexes := (indexes d)(i \<mapsto> (t, cs))\<rparr>, Done))"
| "sql env (SelectCount t w) d =
     (case tables d t of
        None \<Rightarrow> Inl (NoSuchTable t)
      | Some T \<Rightarrow>
         if \<not> cond_resolves T w then Inl (NoSuchColumn (first_missing T (map cond_column (case w of None \<Rightarrow> [] | Some q \<Rightarrow> [q]))))
         else Inr (d, Counted (length (filter (holds T w) (rows T)))))"
| "sql env (DeleteFrom t w) d =
     (case tables d t of
        None \<Rightarrow> Inl (NoSuchTable t)
      | Some T \<Rightarrow>
         if \<not> cond_resolves T w then Inl (NoSuchColumn (first_missing T (map cond_column (case w of None \<Rightarrow> [] | Some q \<Rightarrow> [q]))))
         else Inr (d\<lparr>tables := (tables d)(t \<mapsto> T\<lparr>rows := filter (\<lambda>r. \<not> holds T w r) (rows T)\<rparr>)\<rparr>,
                   Changed (length (filter (holds T w) (rows T)))))"

section \<open>The connection\<close>

text \<open>
  One \<^verbatim>\<open>sqlite3\<close> connection: \<open>disk\<close> is the database file, \<open>work\<close> is the database as
  the connection sees it, \<open>in_tx\<close> says whether a transaction is open. The run keeps a
  trace of its calls on the connection, each with the exception it raised if any, and
  the lines it printed.

  A printed line is its text; a line that formats a list of names, a number or an
  exception keeps the label and the value apart.
\<close>

datatype out =
    Say string
  | SayList string "string list"
  | SayCount string int string
  | SayError error

record st =
  disk :: db
  work :: db
  in_tx :: bool
  trace :: "(step \<times> error option) list"
  printed :: "out list"

definition logged :: "step \<Rightarrow> error option \<Rightarrow> st \<Rightarrow> st" where
  "logged l e s = s\<lparr>trace := trace s @ [(l, e)]\<rparr>"

text \<open>
  Python's \<^verbatim>\<open>sqlite3\<close> opens a transaction by itself before an \<^verbatim>\<open>INSERT\<close> or \<^verbatim>\<open>DELETE\<close>
  when none is open; other statements outside a transaction take effect at once.
\<close>

fun is_dml :: "stmt \<Rightarrow> bool" where
  "is_dml (InsertSelect t ins sel s w) = True"
| "is_dml (DeleteFrom t w) = True"
| "is_dml _ = False"

text \<open>
  \<^verbatim>\<open>conn.execute\<close> and \<^verbatim>\<open>cursor.execute\<close>: the call labelled \<open>l\<close> runs statement \<open>q\<close>. A
  statement that raises changes nothing. \<^verbatim>\<open>BEGIN\<close> inside a transaction raises.
\<close>

definition exec :: "env \<Rightarrow> step \<Rightarrow> stmt \<Rightarrow> st \<Rightarrow> (error + reply) \<times> st" where
  "exec env l q s =
     (case faults env l of
        Some e \<Rightarrow> (Inl e, logged l (Some e) s)
      | None \<Rightarrow>
         if q = BeginTransaction then
           (if in_tx s then (Inl TransactionWithinTransaction, logged l (Some TransactionWithinTransaction) s)
            else (Inr Done, logged l None (s\<lparr>in_tx := True\<rparr>)))
         else
           (case sql env q (work s) of
              Inl e \<Rightarrow> (Inl e, logged l (Some e) s)
            | Inr (d, r) \<Rightarrow>
               (Inr r, logged l None
                  (s\<lparr>work := d,
                     disk := (if in_tx s \<or> is_dml q then disk s else d),
                     in_tx := (in_tx s \<or> is_dml q)\<rparr>))))"

text \<open>
  \<^verbatim>\<open>conn.commit()\<close> writes the open transaction to the file; without one it does
  nothing. \<^verbatim>\<open>conn.rollback()\<close> and \<^verbatim>\<open>conn.close()\<close> drop what was not committed; they
  do not raise.
\<close>

definition commit :: "env \<Rightarrow> st \<Rightarrow> (error + unit) \<times> st" where
  "commit env s =
     (case faults env Commit of
        Some e \<Rightarrow> (Inl e, logged Commit (Some e) s)
      | None \<Rightarrow> (Inr (), logged Commit None (s\<lparr>disk := work s, in_tx := False\<rparr>)))"

definition rollback :: "st \<Rightarrow> st" where
  "rollback s = logged Rollback None (s\<lparr>work := disk s, in_tx := False\<rparr>)"

definition close :: "st \<Rightarrow> st" where
  "close s = logged Close None (s\<lparr>work := disk s, in_tx := False\<rparr>)"

definition say :: "out \<Rightarrow> st \<Rightarrow> (error + unit) \<times> st" where
  "say x s = (Inr (), s\<lparr>printed := printed s @ [x]\<rparr>)"

text \<open>
  Sequencing inside a \<^verbatim>\<open>try\<close> block: the first exception ends the block, and the state
  reached so far is what the handler sees.
\<close>

definition andthen ::
  "(st \<Rightarrow> (error + 'a) \<times> st) \<Rightarrow> ('a \<Rightarrow> st \<Rightarrow> (error + 'b) \<times> st) \<Rightarrow> st \<Rightarrow> (error + 'b) \<times> st" where
  "andthen m f s = (case m s of (Inl e, s') \<Rightarrow> (Inl e, s') | (Inr x, s') \<Rightarrow> f x s')"


text \<open>
  \<^verbatim>\<open>sqlite3.connect('data/ewcs.db')\<close> on the database file \<open>d\<close>. When it raises, the
  variable \<^verbatim>\<open>conn\<close> is never assigned.
\<close>

definition connect :: "env \<Rightarrow> db \<Rightarrow> error + st" where
  "connect env d =
     (case faults env Connect of
        Some e \<Rightarrow> Inl e
      | None \<Rightarrow> Inr \<lparr>disk = d, work = d, in_tx = False, trace = [(Connect, None)], printed = []\<rparr>)"

text \<open>
  What a call of one of the migration functions leaves behind: the value it returns
  (\<open>Inr True\<close>, \<open>Inr False\<close>) or the exception that leaves it, the database file, the
  calls it made on the connection and the lines it printed.
\<close>

record outcome =
  returned :: "error + bool"
  db_after :: db
  calls :: "(step \<times> error option) list"
  shown :: "out list"

definition finish :: "error + bool \<Rightarrow> st \<Rightarrow> outcome" where
  "finish r s = \<lparr>returned = r, db_after = disk s, calls = trace s, shown = printed s\<rparr>"

text \<open>
  The shape all three functions share:
  \<^verbatim>\<open>
  try:
      conn = sqlite3.connect('data/ewcs.db'); cursor = conn.cursor()
      <body>
      conn.close()
      return True
  except Exception as e:
      print(f"Error during migration: {e}")
      if conn:
          conn.rollback()
          conn.close()
      return False
  \<close>
  When \<^verbatim>\<open>connect\<close> itself raised, \<^verbatim>\<open>if conn:\<close> in the handler reads an unassigned local
  variable: the handler has printed its line, and \<^verbatim>\<open>UnboundLocalError\<close> leaves the
  function. A connection object is always true.
\<close>

definition guarded :: "(env \<Rightarrow> st \<Rightarrow> (error + unit) \<times> st) \<Rightarrow> env \<Rightarrow> db \<Rightarrow> outcome" where
  "guarded body env d =
     (case connect env d of
        Inl e \<Rightarrow>
          \<lparr>returned = Inl (UnboundLocalError ''conn''), db_after = d,
           calls = [(Connect, Some e)], shown = [SayError e]\<rparr>
      | Inr s0 \<Rightarrow>
         (case body env s0 of
            (Inr u, s) \<Rightarrow> finish (Inr True) (close s)
          | (Inl e, s) \<Rightarrow> finish (Inr False) (close (rollback (snd (say (SayError e) s))))))"

section \<open>The column-drop scripts\<close>

text \<open>
  \<^verbatim>\<open>migrate_cs125_current\<close> and \<^verbatim>\<open>migrate_power_save_mode\<close> are the same text but for
  the column looked for (\<open>c\<close>), the \<^verbatim>\<open>CREATE TABLE\<close> statement (\<open>new_table\<close>) and the column
  list of the \<^verbatim>\<open>INSERT ... SELECT\<close> (\<open>copied\<close>, the same list on both sides).
\<close>

definition drop_body :: "string \<Rightarrow> column list \<Rightarrow> string list \<Rightarrow> env \<Rightarrow> st \<Rightarrow> (error + unit) \<times> st" where
  "drop_body c new_table copied env =
     andthen (exec env Begin BeginTransaction) (\<lambda>_.
     andthen (exec env TableInfo (PragmaTableInfo ''ewcs_data'')) (\<lambda>columns.
     let column_names = map cname (info_rows columns) in
     if c \<in> set column_names then
       andthen (say (Say (''Found '' @ c @ '' column in ewcs_data table''))) (\<lambda>_.
       andthen (say (SayList ''Current columns:'' column_names)) (\<lambda>_.
       andthen (exec env CreateNew (CreateTable ''ewcs_data_new'' new_table)) (\<lambda>_.
       andthen (exec env CopyRows (InsertSelect ''ewcs_data_new'' copied copied ''ewcs_data'' None)) (\<lambda>copy.
       let rows_migrated = rowcount copy in
       andthen (say (SayCount ''Migrated'' rows_migrated ''rows to new table'')) (\<lambda>_.
       andthen (exec env DropOld (DropTable ''ewcs_data'')) (\<lambda>_.
       andthen (exec env RenameNew (AlterTableRename ''ewcs_data_new'' ''ewcs_data'')) (\<lambda>_.
       andthen (exec env CreateIndex
                  (CreateIndexIfNotExists ''idx_ewcs_data_timestamp'' ''ewcs_data'' [''timestamp''])) (\<lambda>_.
       andthen (commit env) (\<lambda>_.
       andthen (say (Say (''Successfully removed '' @ c @ '' column from ewcs_data table''))) (\<lambda>_.
       andthen (exec env Verify (PragmaTableInfo ''ewcs_data'')) (\<lambda>new_columns.
       say (SayList ''New columns:'' (map cname (info_rows new_columns))))))))))))))
     else
       say (Say (c @ '' column not found in ewcs_data table. Nothing to migrate.''))))"

definition plain :: "string \<Rightarrow> string \<Rightarrow> column" where
  "plain n t = \<lparr>cname = n, ctype = t, notnull = False, dflt = None, pk = False, autoinc = False\<rparr>"

text \<open>The \<^verbatim>\<open>CREATE TABLE ewcs_data_new\<close> of \<^verbatim>\<open>migrate_cs125_current.py\<close>, lines 28 to 59.\<close>

definition cs125_new_table :: "column list" where
  "cs125_new_table =
     [ \<lparr>cname = ''id'', ctype = ''INTEGER'', notnull = False, dflt = None, pk = True, autoinc = True\<rparr>,
       \<lparr>cname = ''timestamp'', ctype = ''INTEGER'', notnull = True, dflt = None, pk = False, autoinc = False\<rparr>,
       plain ''station_name'' ''TEXT'',
       \<lparr>cname = ''power_save_mode'', ctype = ''TEXT'', notnull = False,
        dflt = Some (Literal (VText ''normal'')), pk = False, autoinc = False\<rparr>,
       plain ''cs125_visibility'' ''REAL'',
       plain ''cs125_synop'' ''INTEGER'',
       plain ''cs125_temp'' ''REAL'',
       plain ''cs125_humidity'' ''REAL'',
       plain ''sht45_temp'' ''REAL'',
       plain ''sht45_humidity'' ''REAL'',
       plain ''rpi_temp'' ''REAL'',
       plain ''chan1_current'' ''REAL'',
       plain ''chan2_current'' ''REAL'',
       plain ''chan3_current'' ''REAL'',
       plain ''chan4_current'' ''REAL'',
       plain ''pv_vol'' ''REAL'',
       plain ''pv_cur'' ''REAL'',
       plain ''load_vol'' ''REAL'',
       plain ''load_cur'' ''REAL'',
       plain ''bat_temp'' ''REAL'',
       plain ''dev_temp'' ''REAL'',
       plain ''charg_equip_stat'' ''INTEGER'',
       plain ''dischg_equip_stat'' ''INTEGER'',
       \<lparr>cname = ''created_at'', ctype = ''DATETIME'', notnull = False,
        dflt = Some CurrentTimestamp, pk = False, autoinc = False\<rparr> ]"

text \<open>The column list of its \<^verbatim>\<open>INSERT INTO ewcs_data_new (...) SELECT ... FROM ewcs_data\<close>, lines 62 to 79.\<close>

definition cs125_copied :: "string list" where
  "cs125_copied =
     [ ''id'', ''timestamp'', ''station_name'', ''power_save_mode'',
       ''cs125_visibility'', ''cs125_synop'', ''cs125_temp'', ''cs125_humidity'',
       ''sht45_temp'', ''sht45_humidity'', ''rpi_temp'',
       ''chan1_current'', ''chan2_current'', ''chan3_current'', ''chan4_current'',
       ''pv_vol'', ''pv_cur'', ''load_vol'', ''load_cur'', ''bat_temp'', ''dev_temp'',
       ''charg_equip_stat'', ''dischg_equip_stat'', ''created_at'' ]"

definition migrate_cs125_current :: "env \<Rightarrow> db \<Rightarrow> outcome" where
  "migrate_cs125_current = guarded (drop_body ''cs125_current'' cs125_new_table cs125_copied)"

text \<open>The \<^verbatim>\<open>CREATE TABLE ewcs_data_new\<close> of \<^verbatim>\<open>migrate_power_save_mode.py\<close>, lines 28 to 58.\<close>

definition psm_new_table :: "column list" where
  "psm_new_table =
     [ \<lparr>cname = ''id'', ctype = ''INTEGER'', notnull = False, dflt = None, pk = True, autoinc = True\<rparr>,
       \<lparr>cname = ''timestamp'', ctype = ''INTEGER'', notnull = True, dflt = None, pk = False, autoinc = False\<rparr>,
       plain ''station_name'' ''TEXT'',
       plain ''cs125_visibility'' ''REAL'',
       plain ''cs125_synop'' ''INTEGER'',
       plain ''cs125_temp'' ''REAL'',
       plain ''cs125_humidity'' ''REAL'',
       plain ''sht45_temp'' ''REAL'',
       plain ''sht45_humidity'' ''REAL'',
       plain ''rpi_temp'' ''REAL'',
       plain ''chan1_current'' ''REAL'',
       plain ''chan2_current'' ''REAL'',
       plain ''chan3_current'' ''REAL'',
       plain ''chan4_current'' ''REAL'',
       plain ''pv_vol'' ''REAL'',
       plain ''pv_cur'' ''REAL'',
       plain ''load_vol'' ''REAL'',
       plain ''load_cur'' ''REAL'',
       plain ''bat_temp'' ''REAL'',
       plain ''dev_temp'' ''REAL'',
       plain ''charg_equip_stat'' ''INTEGER'',
       plain ''dischg_equip_stat'' ''INTEGER'',
       \<lparr>cname = ''created_at'', ctype = ''DATETIME'', notnull = False,
        dflt = Some CurrentTimestamp, pk = False, autoinc = False\<rparr> ]"

text \<open>The column list of its \<^verbatim>\<open>INSERT ... SELECT\<close>, lines 61 to 78.\<close>

definition psm_copied :: "string list" where
  "psm_copied =
     [ ''id'', ''timestamp'', ''station_name'',
       ''cs125_visibility'', ''cs125_synop'', ''cs125_temp'', ''cs125_humidity'',
       ''sht45_temp'', ''sht45_humidity'', ''rpi_temp'',
       ''chan1_current'', ''chan2_current'', ''chan3_current'', ''chan4_current'',
       ''pv_vol'', ''pv_cur'', ''load_vol'', ''load_cur'', ''bat_temp'', ''dev_temp'',
       ''charg_equip_stat'', ''dischg_equip_stat'', ''created_at'' ]"

definition migrate_power_save_mode :: "env \<Rightarrow> db \<Rightarrow> outcome" where
  "migrate_power_save_mode = guarded (drop_body ''power_save_mode'' psm_new_table psm_copied)"

section \<open>The image script\<close>

text \<open>
  \<^verbatim>\<open>migrate_images\<close>, lines 16 to 65. The lines printed with a leading \<^verbatim>\<open>\n\<close> begin with
  the newline character.
\<close>

definition fits :: "cond option" where
  "fits = Some (LikeFits ''filename'')"

definition moved_columns :: "string list" where
  "moved_columns = [''timestamp'', ''filename'', ''created_at'']"

definition images_body :: "env \<Rightarrow> st \<Rightarrow> (error + unit) \<times> st" where
  "images_body env =
     andthen (exec env Begin BeginTransaction) (\<lambda>_.
     andthen (exec env CountFits (SelectCount ''ewcs_images'' fits)) (\<lambda>r1.
     let fits_count = count_of r1 in
     andthen (say (SayCount ''Found'' fits_count ''FITS files in ewcs_images table'')) (\<lambda>_.
     andthen (exec env CountOasc (SelectCount ''oasc_images'' None)) (\<lambda>r2.
     let oasc_count = count_of r2 in
     andthen (say (SayCount ''Current OASC images table has'' oasc_count ''records'')) (\<lambda>_.
     if fits_count > 0 then
       andthen (say (Say (CHR 0x0A # ''Migrating FITS files to oasc_images table...''))) (\<lambda>_.
       andthen (exec env InsertFits
                  (InsertSelect ''oasc_images'' moved_columns moved_columns ''ewcs_images'' fits)) (\<lambda>r3.
       let migrated = rowcount r3 in
       andthen (say (SayCount ''Migrated'' migrated ''FITS files to oasc_images'')) (\<lambda>_.
       andthen (say (Say ''Removing FITS files from ewcs_images table...'')) (\<lambda>_.
       andthen (exec env DeleteFits (DeleteFrom ''ewcs_images'' fits)) (\<lambda>r4.
       let deleted = rowcount r4 in
       andthen (say (SayCount ''Removed'' deleted ''FITS files from ewcs_images'')) (\<lambda>_.
       andthen (commit env) (\<lambda>_.
       andthen (say (Say (CHR 0x0A # ''Migration completed successfully!''))) (\<lambda>_.
       andthen (exec env FinalEwcs (SelectCount ''ewcs_images'' None)) (\<lambda>r5.
       let ewcs_final = count_of r5 in
       andthen (exec env FinalOasc (SelectCount ''oasc_images'' None)) (\<lambda>r6.
       let oasc_final = count_of r6 in
       andthen (say (Say (CHR 0x0A # ''Final state:''))) (\<lambda>_.
       andthen (say (SayCount ''  ewcs_images (Spinel):'' ewcs_final ''records'')) (\<lambda>_.
       say (SayCount ''  oasc_images (OASC):'' oasc_final ''records'')))))))))))))
     else
       say (Say ''No FITS files found in ewcs_images table. Nothing to migrate.''))))))"

definition migrate_images :: "env \<Rightarrow> db \<Rightarrow> outcome" where
  "migrate_images = guarded images_body"

section \<open>The processes\<close>

text \<open>
  What a run of a script as a program leaves: the exit code, the outcome of the
  migration function when it was called, and the lines printed. \<^verbatim>\<open>input()\<close> returns the
  line typed, or raises \<^verbatim>\<open>EOFError\<close> when there is none (\<open>None\<close>); an exception nothing
  catches ends the process with exit code 1. \<^verbatim>\<open>response.lower()\<close> is compared with
  \<^verbatim>\<open>'y'\<close>, which only \<^verbatim>\<open>'y'\<close> and \<^verbatim>\<open>'Y'\<close> lower to.
\<close>

record process =
  exit_code :: int
  migration :: "outcome option"
  console :: "out list"

definition exit_of :: "outcome \<Rightarrow> int" where
  "exit_of r = (case returned r of Inr True \<Rightarrow> 0 | Inr False \<Rightarrow> 1 | Inl e \<Rightarrow> 1)"

text \<open>\<^verbatim>\<open>migrate_cs125_current.py\<close>, lines 116 to 130.\<close>

definition main_cs125_current :: "string option \<Rightarrow> env \<Rightarrow> db \<Rightarrow> process" where
  "main_cs125_current stdin env d =
     (let banner = [Say ''EWCS cs125_current Column Removal Script'',
                    Say ''=======================================''] in
      case stdin of
        None \<Rightarrow> \<lparr>exit_code = 1, migration = None, console = banner\<rparr>
      | Some response \<Rightarrow>
          if fold_name response = ''y'' then
            (let r = migrate_cs125_current env d
             in \<lparr>exit_code = exit_of r, migration = Some r, console = banner @ shown r\<rparr>)
          else
            \<lparr>exit_code = 0, migration = None, console = banner @ [Say ''Migration cancelled.'']\<rparr>)"

text \<open>
  \<^verbatim>\<open>migrate_power_save_mode.py\<close>, lines 115 to 134; \<open>argv\<close> is \<^verbatim>\<open>sys.argv\<close>, the script's
  name first.
\<close>

definition main_power_save_mode :: "string list \<Rightarrow> string option \<Rightarrow> env \<Rightarrow> db \<Rightarrow> process" where
  "main_power_save_mode argv stdin env d =
     (let banner = [Say ''EWCS power_save_mode Column Removal Script'',
                    Say ''=========================================''];
          auto_confirm = (length argv > 1 \<and> argv ! 1 = ''-y'');
          migrate = (\<lambda>said.
             let r = migrate_power_save_mode env d
             in \<lparr>exit_code = exit_of r, migration = Some r, console = banner @ said @ shown r\<rparr>)
      in
      if \<not> auto_confirm then
        (case stdin of
           None \<Rightarrow> \<lparr>exit_code = 1, migration = None, console = banner\<rparr>
         | Some response \<Rightarrow>
             if fold_name response \<noteq> ''y'' then
               \<lparr>exit_code = 0, migration = None, console = banner @ [Say ''Migration cancelled.'']\<rparr>
             else migrate [])
      else migrate [Say (CHR 0x0A # ''Auto-confirming migration with -y flag...'')])"

text \<open>\<^verbatim>\<open>migrate_images.py\<close>, lines 77 to 91.\<close>

definition main_images :: "string option \<Rightarrow> env \<Rightarrow> db \<Rightarrow> process" where
  "main_images stdin env d =
     (let banner = [Say ''EWCS Image Table Migration Script'',
                    Say ''==================================''] in
      case stdin of
        None \<Rightarrow> \<lparr>exit_code = 1, migration = None, console = banner\<rparr>
      | Some response \<Rightarrow>
          if fold_name response = ''y'' then
            (let r = migrate_images env d
             in \<lparr>exit_code = exit_of r, migration = Some r, console = banner @ shown r\<rparr>)
          else
            \<lparr>exit_code = 0, migration = None, console = banner @ [Say ''Migration cancelled.'']\<rparr>)"


section \<open>Notions the properties are stated with\<close>

text \<open>The column names \<^verbatim>\<open>PRAGMA table_info(ewcs_data)\<close> reports: \<^verbatim>\<open>column_names\<close> in the scripts.\<close>

definition current_columns :: "db \<Rightarrow> string list" where
  "current_columns d = map cname (case tables d ''ewcs_data'' of None \<Rightarrow> [] | Some T \<Rightarrow> cols T)"

text \<open>Statements run one after the other on a database, up to the first that raises.\<close>

fun run_sql :: "env \<Rightarrow> stmt list \<Rightarrow> db \<Rightarrow> error + db" where
  "run_sql env [] d = Inr d"
| "run_sql env (q # qs) d =
     (case sql env q d of Inl e \<Rightarrow> Inl e | Inr (d', r) \<Rightarrow> run_sql env qs d')"

text \<open>
  The five statements of a column-drop script between the introspection and the commit,
  and the calls that issue them.
\<close>

definition drop_statements :: "column list \<Rightarrow> string list \<Rightarrow> stmt list" where
  "drop_statements new_table copied =
     [ CreateTable ''ewcs_data_new'' new_table,
       InsertSelect ''ewcs_data_new'' copied copied ''ewcs_data'' None,
       DropTable ''ewcs_data'',
       AlterTableRename ''ewcs_data_new'' ''ewcs_data'',
       CreateIndexIfNotExists ''idx_ewcs_data_timestamp'' ''ewcs_data'' [''timestamp''] ]"

definition drop_steps :: "step list" where
  "drop_steps = [Begin, TableInfo, CreateNew, CopyRows, DropOld, RenameNew, CreateIndex, Commit]"

definition passed :: "step list \<Rightarrow> (step \<times> error option) list" where
  "passed ls = map (\<lambda>l. (l, None)) ls"

text \<open>The calls of a run that raised at \<open>l\<close>, with the handler's two calls at the end.\<close>

definition stopped_at :: "step list \<Rightarrow> step \<Rightarrow> error \<Rightarrow> (step \<times> error option) list" where
  "stopped_at ls l e =
     (Connect, None) # passed (takeWhile (\<lambda>x. x \<noteq> l) ls) @ [(l, Some e), (Rollback, None), (Close, None)]"


text \<open>
  \<open>kept env col v w\<close>: \<open>w\<close> is what column \<open>col\<close> holds after a statement stored the value
  \<open>v\<close> in it: \<open>v\<close> as the column's affinity converts it, or, in the rowid column, a rowid
  the engine generated in place of \<^verbatim>\<open>NULL\<close>.
\<close>

definition kept :: "env \<Rightarrow> column \<Rightarrow> sqlval \<Rightarrow> sqlval \<Rightarrow> bool" where
  "kept env col v w =
     (w = affinity env (ctype col) v \<or> (is_rowid col \<and> affinity env (ctype col) v = VNull))"

text \<open>The two column-drop scripts: the column removed, the table created, the function.\<close>

definition column_drop_scripts :: "(string \<times> column list \<times> (env \<Rightarrow> db \<Rightarrow> outcome)) list" where
  "column_drop_scripts =
     [ (''cs125_current'', cs125_new_table, migrate_cs125_current),
       (''power_save_mode'', psm_new_table, migrate_power_save_mode) ]"

text \<open>
  How \<^verbatim>\<open>migrate_power_save_mode.py\<close> gets past its prompt: started with \<^verbatim>\<open>-y\<close> (its
  \<^verbatim>\<open>auto_confirm\<close>), or the line typed lowers to \<^verbatim>\<open>y\<close>; and how the user cancels: no
  \<^verbatim>\<open>-y\<close>, and a line typed that does not.
\<close>

definition auto_confirmed :: "string list \<Rightarrow> bool" where
  "auto_confirmed argv = (length argv > 1 \<and> argv ! 1 = ''-y'')"

definition confirmed :: "string list \<Rightarrow> string option \<Rightarrow> bool" where
  "confirmed argv stdin = (auto_confirmed argv \<or> map_option fold_name stdin = Some ''y'')"

definition cancelled :: "string list \<Rightarrow> string option \<Rightarrow> bool" where
  "cancelled argv stdin =
     (\<not> auto_confirmed argv \<and> stdin \<noteq> None \<and> map_option fold_name stdin \<noteq> Some ''y'')"

text \<open>The calls of a run that raised.\<close>

definition raised :: "outcome \<Rightarrow> (step \<times> error) list" where
  "raised r = concat (map (\<lambda>(l, x). case x of None \<Rightarrow> [] | Some e \<Rightarrow> [(l, e)]) (calls r))"

text \<open>The columns a table declares as its primary key.\<close>

definition primary_key :: "table \<Rightarrow> string list" where
  "primary_key T = map cname (filter pk (cols T))"

section \<open>Databases and environments to run the scripts on\<close>

text \<open>
  An engine that refuses nothing and stores every value as it comes, and the same
  engine refusing one call.
\<close>

definition calm :: env where
  "calm = \<lparr>faults = (\<lambda>l. None), affinity = (\<lambda>t v. v), now = VText ''2025-01-01 00:00:00''\<rparr>"

definition refusing :: "step \<Rightarrow> string \<Rightarrow> env" where
  "refusing l why = calm\<lparr>faults := (\<lambda>x. if x = l then Some (Refused why) else None)\<rparr>"

text \<open>
  A table \<^verbatim>\<open>ewcs_data\<close> with three columns, one of them \<^verbatim>\<open>cs125_current\<close>, and one row.
\<close>

definition small_table :: table where
  "small_table =
     \<lparr>cols = [ \<lparr>cname = ''id'', ctype = ''INTEGER'', notnull = False, dflt = None, pk = True, autoinc = True\<rparr>,
               \<lparr>cname = ''timestamp'', ctype = ''INTEGER'', notnull = True, dflt = None, pk = False, autoinc = False\<rparr>,
               plain ''cs125_current'' ''REAL'' ],
      rows = [[VInt 1, VInt 1700000000, VNull]],
      sequence = 1\<rparr>"

definition d_small :: db where
  "d_small = \<lparr>tables = [''ewcs_data'' \<mapsto> small_table], indexes = Map.empty\<rparr>"


text \<open>
  A table \<^verbatim>\<open>ewcs_data\<close> that has both \<^verbatim>\<open>power_save_mode\<close> and \<^verbatim>\<open>cs125_current\<close> next to the
  23 columns the two scripts keep, with one row and the index on \<^verbatim>\<open>timestamp\<close>.
\<close>

definition both_columns :: "column list" where
  "both_columns =
     [ \<lparr>cname = ''id'', ctype = ''INTEGER'', notnull = False, dflt = None, pk = True, autoinc = True\<rparr>,
       \<lparr>cname = ''timestamp'', ctype = ''INTEGER'', notnull = True, dflt = None, pk = False, autoinc = False\<rparr>,
       plain ''station_name'' ''TEXT'',
       \<lparr>cname = ''power_save_mode'', ctype = ''TEXT'', notnull = False,
        dflt = Some (Literal (VText ''normal'')), pk = False, autoinc = False\<rparr>,
       plain ''cs125_current'' ''REAL'',
       plain ''cs125_visibility'' ''REAL'',
       plain ''cs125_synop'' ''INTEGER'',
       plain ''cs125_temp'' ''REAL'',
       plain ''cs125_humidity'' ''REAL'',
       plain ''sht45_temp'' ''REAL'',
       plain ''sht45_humidity'' ''REAL'',
       plain ''rpi_temp'' ''REAL'',
       plain ''chan1_current'' ''REAL'',
       plain ''chan2_current'' ''REAL'',
       plain ''chan3_current'' ''REAL'',
       plain ''chan4_current'' ''REAL'',
       plain ''pv_vol'' ''REAL'',
       plain ''pv_cur'' ''REAL'',
       plain ''load_vol'' ''REAL'',
       plain ''load_cur'' ''REAL'',
       plain ''bat_temp'' ''REAL'',
       plain ''dev_temp'' ''REAL'',
       plain ''charg_equip_stat'' ''INTEGER'',
       plain ''dischg_equip_stat'' ''INTEGER'',
       \<lparr>cname = ''created_at'', ctype = ''DATETIME'', notnull = False,
        dflt = Some CurrentTimestamp, pk = False, autoinc = False\<rparr> ]"

definition both_row :: "sqlval list" where
  "both_row =
     [ VInt 1, VInt 1700000000, VText ''EWCS-1'', VText ''normal'', VNull,
       VInt 20000, VInt 0, VNull, VNull, VNull, VNull, VNull,
       VNull, VNull, VNull, VNull,
       VNull, VNull, VNull, VNull, VNull, VNull,
       VInt 1, VInt 1, VText ''2025-01-01 00:00:00'' ]"

definition both_table :: table where
  "both_table = \<lparr>cols = both_columns, rows = [both_row], sequence = 1\<rparr>"

definition d_both :: db where
  "d_both =
     \<lparr>tables = [''ewcs_data'' \<mapsto> both_table],
      indexes = [''idx_ewcs_data_timestamp'' \<mapsto> (''ewcs_data'', [''timestamp''])]\<rparr>"

section \<open>Runs of the column-drop scripts, case by case\<close>

lemma exec_raise_fault:
  "faults env l = Some e \<Longrightarrow> exec env l q s = (Inl e, logged l (Some e) s)"
  by (simp add: exec_def)

lemma exec_begin:
  "faults env l = None \<Longrightarrow> \<not> in_tx s \<Longrightarrow>
   exec env l BeginTransaction s = (Inr Done, logged l None (s\<lparr>in_tx := True\<rparr>))"
  by (simp add: exec_def)

lemma exec_raise_sql:
  "faults env l = None \<Longrightarrow> q \<noteq> BeginTransaction \<Longrightarrow> sql env q (work s) = Inl e \<Longrightarrow>
   exec env l q s = (Inl e, logged l (Some e) s)"
  by (simp add: exec_def)

lemma exec_ok:
  "faults env l = None \<Longrightarrow> q \<noteq> BeginTransaction \<Longrightarrow> sql env q (work s) = Inr (d, r) \<Longrightarrow>
   exec env l q s =
     (Inr r, logged l None (s\<lparr>work := d, disk := (if in_tx s \<or> is_dml q then disk s else d),
                                in_tx := (in_tx s \<or> is_dml q)\<rparr>))"
  by (simp add: exec_def)

lemma step_cases:
  obtains (fault) e where "faults env l = Some e"
  | (raised) e where "faults env l = None" "sql env q d = Inl e"
  | (ok) d' r where "faults env l = None" "sql env q d = Inr (d', r)"
  by (cases "faults env l"; cases "sql env q d") auto

lemmas run_simps = andthen_def say_def logged_def commit_def rollback_def close_def
  finish_def guarded_def connect_def Let_def

lemmas drop_simps = drop_body_def run_simps exec_begin exec_ok exec_raise_fault exec_raise_sql
  stopped_at_def drop_steps_def passed_def

lemma sql_table_info:
  "sql env (PragmaTableInfo t) d = Inr (d, Info (case tables d t of None \<Rightarrow> [] | Some T \<Rightarrow> cols T))"
  by simp

lemma drop_run_cases:
  fixes c nt cp env d
  defines "r \<equiv> guarded (drop_body c nt cp) env d"
  obtains
    (unconnected) e where "faults env Connect = Some e"
      "r = \<lparr>returned = Inl (UnboundLocalError ''conn''), db_after = d,
            calls = [(Connect, Some e)], shown = [SayError e]\<rparr>"
  | (early) l e where "l = Begin \<or> l = TableInfo" "faults env Connect = None" "faults env l = Some e"
      "r = \<lparr>returned = Inr False, db_after = d, calls = stopped_at drop_steps l e,
            shown = [SayError e]\<rparr>"
  | (absent) "faults env Connect = None" "faults env Begin = None" "faults env TableInfo = None"
      "c \<notin> set (current_columns d)"
      "r = \<lparr>returned = Inr True, db_after = d,
            calls = [(Connect, None), (Begin, None), (TableInfo, None), (Close, None)],
            shown = [Say (c @ '' column not found in ewcs_data table. Nothing to migrate.'')]\<rparr>"
  | (failed) l e where "c \<in> set (current_columns d)"
      "l \<in> set [CreateNew, CopyRows, DropOld, RenameNew, CreateIndex, Commit]"
      "faults env Connect = None"
      "returned r = Inr False" "db_after r = d" "calls r = stopped_at drop_steps l e"
      "shown r \<noteq> []" "last (shown r) = SayError e"
      "faults env l = Some e \<or> run_sql env (drop_statements nt cp) d = Inl e"
  | (committed) d' where "c \<in> set (current_columns d)"
      "faults env Connect = None" "list_all (\<lambda>l. faults env l = None) drop_steps"
      "run_sql env (drop_statements nt cp) d = Inr d'"
      "db_after r = d'"
      "calls r = (Connect, None) # passed drop_steps @ (Verify, faults env Verify)
                   # (if faults env Verify = None then [] else [(Rollback, None)]) @ [(Close, None)]"
      "returned r = Inr (faults env Verify = None)"
      "shown r \<noteq> []"
      "last (shown r) = (case faults env Verify of None \<Rightarrow> SayList ''New columns:'' (current_columns d')
                          | Some e \<Rightarrow> SayError e)"
proof (cases "faults env Connect")
  case (Some e)
  then have "r = \<lparr>returned = Inl (UnboundLocalError ''conn''), db_after = d,
            calls = [(Connect, Some e)], shown = [SayError e]\<rparr>"
    by (simp add: r_def guarded_def connect_def)
  with Some show ?thesis by (rule unconnected)
next
  case fc: None
  show ?thesis
  proof (cases "faults env Begin")
    case (Some e)
    with fc have "r = \<lparr>returned = Inr False, db_after = d, calls = stopped_at drop_steps Begin e,
            shown = [SayError e]\<rparr>"
      by (simp add: r_def drop_simps)
    with fc Some show ?thesis using early[of Begin e] by simp
  next
    case fb: None
    show ?thesis
    proof (cases "faults env TableInfo")
      case (Some e)
      with fc fb have "r = \<lparr>returned = Inr False, db_after = d, calls = stopped_at drop_steps TableInfo e,
            shown = [SayError e]\<rparr>"
        by (simp add: r_def drop_simps)
      with fc Some show ?thesis using early[of TableInfo e] by simp
    next
      case ft: None
      show ?thesis
      proof (cases "c \<in> set (current_columns d)")
        case False
        with fc fb ft have "r = \<lparr>returned = Inr True, db_after = d,
            calls = [(Connect, None), (Begin, None), (TableInfo, None), (Close, None)],
            shown = [Say (c @ '' column not found in ewcs_data table. Nothing to migrate.'')]\<rparr>"
          by (simp add: r_def drop_simps current_columns_def)
        with fc fb ft False show ?thesis by (rule absent)
      next
        case present: True
        note pre = fc fb ft present sql_table_info
        let ?q1 = "CreateTable ''ewcs_data_new'' nt"
        let ?q2 = "InsertSelect ''ewcs_data_new'' cp cp ''ewcs_data'' None"
        let ?q3 = "DropTable ''ewcs_data''"
        let ?q4 = "AlterTableRename ''ewcs_data_new'' ''ewcs_data''"
        let ?q5 = "CreateIndexIfNotExists ''idx_ewcs_data_timestamp'' ''ewcs_data'' [''timestamp'']"
        have stop: "thesis" if "returned r = Inr False \<and> db_after r = d \<and>
            calls r = stopped_at drop_steps l e \<and> shown r \<noteq> [] \<and> last (shown r) = SayError e"
            "l \<in> set [CreateNew, CopyRows, DropOld, RenameNew, CreateIndex, Commit]"
            "faults env l = Some e \<or> run_sql env (drop_statements nt cp) d = Inl e" for l e
          using failed[of l e] present fc that by blast
        show ?thesis
        proof (cases rule: step_cases[where env=env and l=CreateNew and q="?q1" and d=d])
          case (fault e)
          with pre have "returned r = Inr False \<and> db_after r = d \<and>
              calls r = stopped_at drop_steps CreateNew e \<and> shown r \<noteq> [] \<and> last (shown r) = SayError e"
            by (simp add: r_def drop_simps current_columns_def del: sql.simps)
          then show ?thesis using stop[of CreateNew e] fault by simp
        next
          case (raised e)
          with pre have "returned r = Inr False \<and> db_after r = d \<and>
              calls r = stopped_at drop_steps CreateNew e \<and> shown r \<noteq> [] \<and> last (shown r) = SayError e"
            by (simp add: r_def drop_simps current_columns_def del: sql.simps)
          moreover have "run_sql env (drop_statements nt cp) d = Inl e"
            using  raised by (simp add: drop_statements_def del: sql.simps)
          ultimately show ?thesis using stop[of CreateNew e] by simp
        next
          case k1: (ok d1 r1)
          show ?thesis
          proof (cases rule: step_cases[where env=env and l=CopyRows and q="?q2" and d=d1])
            case (fault e)
            with pre k1 have "returned r = Inr False \<and> db_after r = d \<and>
                calls r = stopped_at drop_steps CopyRows e \<and> shown r \<noteq> [] \<and> last (shown r) = SayError e"
              by (simp add: r_def drop_simps current_columns_def del: sql.simps)
            then show ?thesis using stop[of CopyRows e] fault by simp
          next
            case (raised e)
            with pre k1 have "returned r = Inr False \<and> db_after r = d \<and>
                calls r = stopped_at drop_steps CopyRows e \<and> shown r \<noteq> [] \<and> last (shown r) = SayError e"
              by (simp add: r_def drop_simps current_columns_def del: sql.simps)
            moreover have "run_sql env (drop_statements nt cp) d = Inl e"
              using k1 raised by (simp add: drop_statements_def del: sql.simps)
            ultimately show ?thesis using stop[of CopyRows e] by simp
          next
            case k2: (ok d2 r2)
            show ?thesis
            proof (cases rule: step_cases[where env=env and l=DropOld and q="?q3" and d=d2])
              case (fault e)
              with pre k1 k2 have "returned r = Inr False \<and> db_after r = d \<and>
                  calls r = stopped_at drop_steps DropOld e \<and> shown r \<noteq> [] \<and> last (shown r) = SayError e"
                by (simp add: r_def drop_simps current_columns_def del: sql.simps)
              then show ?thesis using stop[of DropOld e] fault by simp
            next
              case (raised e)
              with pre k1 k2 have "returned r = Inr False \<and> db_after r = d \<and>
                  calls r = stopped_at drop_steps DropOld e \<and> shown r \<noteq> [] \<and> last (shown r) = SayError e"
                by (simp add: r_def drop_simps current_columns_def del: sql.simps)
              moreover have "run_sql env (drop_statements nt cp) d = Inl e"
                using k1 k2 raised by (simp add: drop_statements_def del: sql.simps)
              ultimately show ?thesis using stop[of DropOld e] by simp
            next
              case k3: (ok d3 r3)
              show ?thesis
              proof (cases rule: step_cases[where env=env and l=RenameNew and q="?q4" and d=d3])
                case (fault e)
                with pre k1 k2 k3 have "returned r = Inr False \<and> db_after r = d \<and>
                    calls r = stopped_at drop_steps RenameNew e \<and> shown r \<noteq> [] \<and> last (shown r) = SayError e"
                  by (simp add: r_def drop_simps current_columns_def del: sql.simps)
                then show ?thesis using stop[of RenameNew e] fault by simp
              next
                case (raised e)
                with pre k1 k2 k3 have "returned r = Inr False \<and> db_after r = d \<and>
                    calls r = stopped_at drop_steps RenameNew e \<and> shown r \<noteq> [] \<and> last (shown r) = SayError e"
                  by (simp add: r_def drop_simps current_columns_def del: sql.simps)
                moreover have "run_sql env (drop_statements nt cp) d = Inl e"
                  using k1 k2 k3 raised by (simp add: drop_statements_def del: sql.simps)
                ultimately show ?thesis using stop[of RenameNew e] by simp
              next
                case k4: (ok d4 r4)
                show ?thesis
                proof (cases rule: step_cases[where env=env and l=CreateIndex and q="?q5" and d=d4])
                  case (fault e)
                  with pre k1 k2 k3 k4 have "returned r = Inr False \<and> db_after r = d \<and>
                      calls r = stopped_at drop_steps CreateIndex e \<and> shown r \<noteq> [] \<and> last (shown r) = SayError e"
                    by (simp add: r_def drop_simps current_columns_def del: sql.simps)
                  then show ?thesis using stop[of CreateIndex e] fault by simp
                next
                  case (raised e)
                  with pre k1 k2 k3 k4 have "returned r = Inr False \<and> db_after r = d \<and>
                      calls r = stopped_at drop_steps CreateIndex e \<and> shown r \<noteq> [] \<and> last (shown r) = SayError e"
                    by (simp add: r_def drop_simps current_columns_def del: sql.simps)
                  moreover have "run_sql env (drop_statements nt cp) d = Inl e"
                    using k1 k2 k3 k4 raised by (simp add: drop_statements_def del: sql.simps)
                  ultimately show ?thesis using stop[of CreateIndex e] by simp
                next
                  case k5: (ok d5 r5)
                  have run: "run_sql env (drop_statements nt cp) d = Inr d5"
                    using k1 k2 k3 k4 k5 by (simp add: drop_statements_def del: sql.simps)
                  show ?thesis
                  proof (cases "faults env Commit")
                    case (Some e)
                    with pre k1 k2 k3 k4 k5 have "returned r = Inr False \<and> db_after r = d \<and>
                        calls r = stopped_at drop_steps Commit e \<and> shown r \<noteq> [] \<and> last (shown r) = SayError e"
                      by (simp add: r_def drop_simps current_columns_def del: sql.simps)
                    then show ?thesis using stop[of Commit e] Some by simp
                  next
                    case fk: None
                    have "db_after r = d5 \<and>
                      calls r = (Connect, None) # passed drop_steps @ (Verify, faults env Verify)
                                 # (if faults env Verify = None then [] else [(Rollback, None)]) @ [(Close, None)] \<and>
                      returned r = Inr (faults env Verify = None) \<and> shown r \<noteq> [] \<and>
                      last (shown r) = (case faults env Verify of None \<Rightarrow> SayList ''New columns:'' (current_columns d5)
                                        | Some e \<Rightarrow> SayError e)"
                    proof (cases "faults env Verify")
                      case None
                      with pre k1 k2 k3 k4 k5 fk show ?thesis
                        by (simp add: r_def drop_simps current_columns_def del: sql.simps)
                    next
                      case (Some e)
                      with pre k1 k2 k3 k4 k5 fk show ?thesis
                        by (simp add: r_def drop_simps current_columns_def del: sql.simps)
                    qed
                    moreover have "list_all (\<lambda>l. faults env l = None) drop_steps"
                      using fb ft k1(1) k2(1) k3(1) k4(1) k5(1) fk by (simp add: drop_steps_def)
                    ultimately show ?thesis using committed[of d5] present fc run by blast
                  qed
                qed
              qed
            qed
          qed
        qed
      qed
    qed
  qed
qed


lemma drop_committed:
  assumes "faults env Connect = None" "list_all (\<lambda>l. faults env l = None) drop_steps"
    "c \<in> set (current_columns d)"
    "run_sql env (drop_statements nt cp) d = Inr d'"
  shows "returned (guarded (drop_body c nt cp) env d) = Inr (faults env Verify = None) \<and>
         db_after (guarded (drop_body c nt cp) env d) = d' \<and>
         calls (guarded (drop_body c nt cp) env d) =
           (Connect, None) # passed drop_steps @ (Verify, faults env Verify)
             # (if faults env Verify = None then [] else [(Rollback, None)]) @ [(Close, None)]"
  using assms
  by (cases rule: drop_run_cases[where env=env and c=c and d=d and nt=nt and cp=cp])
     (auto simp: drop_steps_def)

lemma drop_absent:
  assumes "c \<notin> set (current_columns d)"
    and "faults env Connect = None" "faults env Begin = None" "faults env TableInfo = None"
  shows "guarded (drop_body c nt cp) env d =
    \<lparr>returned = Inr True, db_after = d,
     calls = [(Connect, None), (Begin, None), (TableInfo, None), (Close, None)],
     shown = [Say (c @ '' column not found in ewcs_data table. Nothing to migrate.'')]\<rparr>"
  using assms
  by (cases rule: drop_run_cases[where env=env and c=c and d=d and nt=nt and cp=cp]) auto


lemma raised_passed [simp]: "(l, Some e) \<notin> set (passed ls)"
  by (auto simp: passed_def)

lemma raised_stopped_at [simp]:
  "(l, Some e) \<in> set (stopped_at ls l' e') \<longleftrightarrow> l = l' \<and> e = e'"
  by (auto simp: stopped_at_def)

lemma concat_map_empty: "concat (map (\<lambda>x. []) xs) = []"
  by (induction xs) auto

lemma raised_of_passed:
  "concat (map (\<lambda>(l, x). case x of None \<Rightarrow> [] | Some e \<Rightarrow> [(l, e)]) (passed ls)) = []"
  by (simp add: passed_def comp_def concat_map_empty)

lemma raised_of_stopped:
  "calls r = stopped_at ls l e \<Longrightarrow> raised r = [(l, e)]"
  by (simp add: raised_def stopped_at_def raised_of_passed)

lemma raised_of_committed:
  "calls r = (Connect, None) # passed ls @ (Verify, x) # (if x = None then [] else [(Rollback, None)]) @ [(Close, None)]
   \<Longrightarrow> raised r = (case x of None \<Rightarrow> [] | Some e \<Rightarrow> [(Verify, e)])"
  by (simp add: raised_def raised_of_passed split: option.splits)

lemma drop_returned_raised:
  assumes r: "r = guarded (drop_body c nt cp) env d"
  shows "(returned r = Inr True \<longleftrightarrow> raised r = []) \<and>
         (returned r = Inr False \<longleftrightarrow> (\<exists>l e. raised r = [(l, e)] \<and> l \<noteq> Connect)) \<and>
         (returned r \<noteq> Inr True \<and> returned r \<noteq> Inr False \<longleftrightarrow> (\<exists>e. raised r = [(Connect, e)]))"
proof (cases rule: drop_run_cases[where env=env and c=c and d=d and nt=nt and cp=cp])
  case (unconnected e)
  then show ?thesis unfolding r by (simp add: raised_def)
next
  case (early l e)
  then show ?thesis unfolding r
    using raised_of_stopped[of "guarded (drop_body c nt cp) env d" drop_steps l e]
    by auto
next
  case absent
  then show ?thesis unfolding r by (simp add: raised_def)
next
  case (failed l e)
  then show ?thesis unfolding r
    using raised_of_stopped[of "guarded (drop_body c nt cp) env d" drop_steps l e]
    by auto
next
  case (committed d')
  then show ?thesis unfolding r
    using raised_of_committed[of "guarded (drop_body c nt cp) env d" drop_steps "faults env Verify"]
    by (auto split: option.splits)
qed

section \<open>What the statements leave in the tables\<close>

lemma place_all_list_all2:
  "place_all env t T ins vs cs = Inr r \<Longrightarrow>
   list_all2 (\<lambda>col w. place env t T col (incoming env ins vs col) = Inr w) cs r"
  by (induction cs arbitrary: r) (auto split: sum.splits)

lemma insert_row_cols: "insert_row env t ins T vs = Inr T' \<Longrightarrow> cols T' = cols T"
  by (auto simp: insert_row_def Let_def split: sum.splits)

lemma insert_row_rows:
  "insert_row env t ins T vs = Inr T' \<Longrightarrow>
   \<exists>r. rows T' = rows T @ [r] \<and> place_all env t T ins vs (cols T) = Inr r"
  by (auto simp: insert_row_def Let_def split: sum.splits)

lemma insert_rows_cols: "insert_rows env t ins T vss = Inr T' \<Longrightarrow> cols T' = cols T"
  by (induction vss arbitrary: T) (auto split: sum.splits dest: insert_row_cols)

lemma insert_rows_rows:
  "insert_rows env t ins T vss = Inr T' \<Longrightarrow>
   \<exists>new. rows T' = rows T @ new \<and>
     list_all2 (\<lambda>vs r. \<exists>Tk. cols Tk = cols T \<and> place_all env t Tk ins vs (cols T) = Inr r) vss new"
proof (induction vss arbitrary: T)
  case Nil
  then show ?case by simp
next
  case (Cons vs rest)
  from Cons.prems obtain T1 where a: "insert_row env t ins T vs = Inr T1"
    and b: "insert_rows env t ins T1 rest = Inr T'"
    by (auto split: sum.splits)
  from insert_row_rows[OF a] obtain r where r: "rows T1 = rows T @ [r]"
    "place_all env t T ins vs (cols T) = Inr r" by blast
  have c1: "cols T1 = cols T" using a by (rule insert_row_cols)
  from Cons.IH[OF b] obtain new where n: "rows T' = rows T1 @ new"
    "list_all2 (\<lambda>vs r. \<exists>Tk. cols Tk = cols T1 \<and> place_all env t Tk ins vs (cols T1) = Inr r) rest new"
    by blast
  show ?case
    apply (rule exI[of _ "r # new"])
    using r n c1 by auto
qed

lemma run_sql_Cons:
  "run_sql env (q # qs) d = Inr d' \<Longrightarrow> \<exists>d1 r1. sql env q d = Inr (d1, r1) \<and> run_sql env qs d1 = Inr d'"
  by (auto split: sum.splits)

lemma run_drop_statements:
  assumes "run_sql env (drop_statements nt cp) d = Inr d'"
  shows "\<exists>S T'. tables d ''ewcs_data'' = Some S \<and> tables d ''ewcs_data_new'' = None \<and>
     columns_resolve S cp \<and>
     insert_rows env ''ewcs_data_new'' cp \<lparr>cols = nt, rows = [], sequence = 0\<rparr>
        (map (\<lambda>r. map (cell S r) cp) (rows S)) = Inr T' \<and>
     tables d' = (tables d)(''ewcs_data'' \<mapsto> T')"
proof -
  let ?E = "\<lparr>cols = nt, rows = [], sequence = 0\<rparr>"
  from assms obtain d1 r1 where
    q1: "sql env (CreateTable ''ewcs_data_new'' nt) d = Inr (d1, r1)" and
    rest1: "run_sql env [InsertSelect ''ewcs_data_new'' cp cp ''ewcs_data'' None, DropTable ''ewcs_data'',
       AlterTableRename ''ewcs_data_new'' ''ewcs_data'',
       CreateIndexIfNotExists ''idx_ewcs_data_timestamp'' ''ewcs_data'' [''timestamp'']] d1 = Inr d'"
    unfolding drop_statements_def by (blast dest: run_sql_Cons)
  from q1 have new_free: "tables d ''ewcs_data_new'' = None"
    and t1: "tables d1 = (tables d)(''ewcs_data_new'' \<mapsto> ?E)"
    by (auto split: if_splits)
  from rest1 obtain d2 r2 where
    q2: "sql env (InsertSelect ''ewcs_data_new'' cp cp ''ewcs_data'' None) d1 = Inr (d2, r2)" and
    rest2: "run_sql env [DropTable ''ewcs_data'', AlterTableRename ''ewcs_data_new'' ''ewcs_data'',
       CreateIndexIfNotExists ''idx_ewcs_data_timestamp'' ''ewcs_data'' [''timestamp'']] d2 = Inr d'"
    by (blast dest: run_sql_Cons)
  have new1: "tables d1 ''ewcs_data_new'' = Some ?E" and old1: "tables d1 ''ewcs_data'' = tables d ''ewcs_data''"
    using t1 by simp_all
  from q2 new1 old1 obtain S T' where
    S: "tables d ''ewcs_data'' = Some S" and res: "columns_resolve S cp" and
    ins: "insert_rows env ''ewcs_data_new'' cp ?E (map (\<lambda>r. map (cell S r) cp) (rows S)) = Inr T'" and
    t2: "tables d2 = (tables d1)(''ewcs_data_new'' \<mapsto> T')"
    by (auto simp: Let_def split: option.splits if_splits sum.splits)
  from rest2 obtain d3 r3 where
    q3: "sql env (DropTable ''ewcs_data'') d2 = Inr (d3, r3)" and
    rest3: "run_sql env [AlterTableRename ''ewcs_data_new'' ''ewcs_data'',
       CreateIndexIfNotExists ''idx_ewcs_data_timestamp'' ''ewcs_data'' [''timestamp'']] d3 = Inr d'"
    by (blast dest: run_sql_Cons)
  from q3 have t3: "tables d3 = (tables d2)(''ewcs_data'' := None)"
    by (auto split: option.splits)
  from rest3 obtain d4 r4 where
    q4: "sql env (AlterTableRename ''ewcs_data_new'' ''ewcs_data'') d3 = Inr (d4, r4)" and
    rest4: "run_sql env [CreateIndexIfNotExists ''idx_ewcs_data_timestamp'' ''ewcs_data'' [''timestamp'']] d4 = Inr d'"
    by (blast dest: run_sql_Cons)
  have new3: "tables d3 ''ewcs_data_new'' = Some T'" using t3 t2 by simp
  from q4 new3 have t4: "tables d4 = (tables d3)(''ewcs_data_new'' := None, ''ewcs_data'' \<mapsto> T')"
    by (auto split: option.splits if_splits)
  from rest4 obtain r5 where
    q5: "sql env (CreateIndexIfNotExists ''idx_ewcs_data_timestamp'' ''ewcs_data'' [''timestamp'']) d4 = Inr (d', r5)"
    by (auto split: sum.splits simp del: sql.simps)
  from q5 have t5: "tables d' = tables d4"
    by (auto split: option.splits if_splits)
  have "tables d' = (tables d)(''ewcs_data'' \<mapsto> T')"
    using t5 t4 t3 t2 t1 new_free by (auto simp: fun_eq_iff)
  with S new_free res ins show ?thesis by blast
qed

lemma place_kept:
  "place env t T col v = Inr w \<Longrightarrow> kept env col v w"
  by (auto simp: place_def kept_def Let_def split: if_splits sqlval.splits)

lemma cell_nth:
  assumes "distinct (map (fold_name \<circ> cname) (cols T))" "length r = length (cols T)" "j < length (cols T)"
  shows "cell T r (cname (cols T ! j)) = r ! j"
proof -
  have "map_of (zip (map (fold_name \<circ> cname) (cols T)) r) (map (fold_name \<circ> cname) (cols T) ! j) = Some (r ! j)"
    using assms by (intro map_of_zip_nth) auto
  then show ?thesis using assms by (simp add: cell_def)
qed

lemma incoming_listed:
  assumes "distinct (map (fold_name \<circ> cname) cs)" "j < length cs"
  shows "incoming env (map cname cs) (map f (map cname cs)) (cs ! j) = f (cname (cs ! j))"
proof -
  have "map_of (zip (map fold_name (map cname cs)) (map f (map cname cs))) (map fold_name (map cname cs) ! j)
        = Some (map f (map cname cs) ! j)"
    using assms by (intro map_of_zip_nth) (auto simp: comp_def)
  then show ?thesis using assms by (simp add: incoming_def)
qed

lemma copied_rows_kept:
  assumes dist: "distinct (map (fold_name \<circ> cname) nt)"
    and ins: "insert_rows env t (map cname nt) \<lparr>cols = nt, rows = [], sequence = q\<rparr>
                (map (\<lambda>r. map (cell S r) (map cname nt)) (rows S)) = Inr T'"
  shows "cols T' = nt \<and> length (rows T') = length (rows S) \<and>
    (\<forall>i < length (rows S). \<forall>col \<in> set nt.
       kept env col (cell S (rows S ! i) (cname col)) (cell T' (rows T' ! i) (cname col)))"
proof -
  have c: "cols T' = nt" using insert_rows_cols[OF ins] by simp
  from insert_rows_rows[OF ins] have la:
    "list_all2 (\<lambda>vs r. \<exists>Tk. cols Tk = nt \<and> place_all env t Tk (map cname nt) vs nt = Inr r)
       (map (\<lambda>r. map (cell S r) (map cname nt)) (rows S)) (rows T')"
    by auto
  then have len: "length (rows T') = length (rows S)"
    by (auto dest: list_all2_lengthD)
  have "kept env col (cell S (rows S ! i) (cname col)) (cell T' (rows T' ! i) (cname col))"
    if i: "i < length (rows S)" and col: "col \<in> set nt" for i col
  proof -
    from la i obtain Tk where
      pa: "place_all env t Tk (map cname nt) (map (cell S (rows S ! i)) (map cname nt)) nt = Inr (rows T' ! i)"
      by (auto simp: list_all2_conv_all_nth)
    from col obtain j where j: "j < length nt" "nt ! j = col" by (auto simp: in_set_conv_nth)
    from place_all_list_all2[OF pa] have
      l2: "list_all2 (\<lambda>col w. place env t Tk col
              (incoming env (map cname nt) (map (cell S (rows S ! i)) (map cname nt)) col) = Inr w) nt (rows T' ! i)" .
    then have rl: "length (rows T' ! i) = length nt" by (auto dest: list_all2_lengthD)
    from l2 j have "place env t Tk col
        (incoming env (map cname nt) (map (cell S (rows S ! i)) (map cname nt)) col) = Inr (rows T' ! i ! j)"
      by (auto simp: list_all2_conv_all_nth)
    moreover have "incoming env (map cname nt) (map (cell S (rows S ! i)) (map cname nt)) col
        = cell S (rows S ! i) (cname col)"
      using incoming_listed[OF dist j(1), of env "cell S (rows S ! i)"] j by simp
    moreover have "cell T' (rows T' ! i) (cname col) = rows T' ! i ! j"
      using cell_nth[of T' "rows T' ! i" j] dist c rl j by simp
    ultimately show ?thesis by (simp add: place_kept)
  qed
  with c len show ?thesis by blast
qed

lemma place_plain:
  assumes "affinity env (ctype col) v = v"
    and "is_rowid col \<Longrightarrow> \<exists>i. v = VInt i \<and> i \<notin> set (used_ids T)"
    and "\<not> is_rowid col \<Longrightarrow> \<not> (notnull col \<and> v = VNull)"
  shows "place env t T col v = Inr v"
  using assms by (auto simp: place_def Let_def)

lemma place_all_from_list_all2:
  "list_all2 (\<lambda>col w. place env t T col (incoming env ins vs col) = Inr w) cs ws \<Longrightarrow>
   place_all env t T ins vs cs = Inr ws"
  by (induction cs ws rule: list_all2_induct) auto

lemma place_all_plain:
  assumes dist: "distinct (map (fold_name \<circ> cname) cs)" and len: "length vs = length cs"
    and ok: "list_all2 (\<lambda>col v. place env t T col v = Inr v) cs vs"
  shows "place_all env t T (map cname cs) vs cs = Inr vs"
proof (rule place_all_from_list_all2)
  have inc: "incoming env (map cname cs) vs (cs ! j) = vs ! j" if "j < length cs" for j
  proof -
    have "map_of (zip (map fold_name (map cname cs)) vs) (map fold_name (map cname cs) ! j)
        = Some (vs ! j)"
      using dist len that by (intro map_of_zip_nth) (auto simp: comp_def)
    then show ?thesis using that by (simp add: incoming_def)
  qed
  show "list_all2 (\<lambda>col w. place env t T col (incoming env (map cname cs) vs col) = Inr w) cs vs"
    using ok len inc by (auto simp: list_all2_conv_all_nth)
qed

lemma has_column_own: "col \<in> set (cols T) \<Longrightarrow> has_column T (cname col)"
  by (auto simp: has_column_def)

lemma columns_resolve_own: "columns_resolve \<lparr>cols = nt, rows = rs, sequence = q\<rparr> (map cname nt)"
  by (auto simp: columns_resolve_def list_all_iff has_column_def)

lemma columns_resolve_names:
  "set (map fold_name cs) \<subseteq> set (map (fold_name \<circ> cname) (cols T)) \<Longrightarrow> columns_resolve T cs"
  by (auto simp: columns_resolve_def list_all_iff has_column_def)

lemma run_drop_statements_ok:
  assumes S: "tables d ''ewcs_data'' = Some S"
    and free: "tables d ''ewcs_data_new'' = None" "indexes d ''ewcs_data_new'' = None"
      "indexes d ''ewcs_data'' = None" "tables d ''idx_ewcs_data_timestamp'' = None"
    and res: "columns_resolve S (map cname nt)"
    and ins: "insert_rows env ''ewcs_data_new'' (map cname nt) \<lparr>cols = nt, rows = [], sequence = 0\<rparr>
        (map (\<lambda>r. map (cell S r) (map cname nt)) (rows S)) = Inr T'"
    and ts: "has_column T' ''timestamp''"
  shows "\<exists>d'. run_sql env (drop_statements nt (map cname nt)) d = Inr d'"
proof -
  let ?E = "\<lparr>cols = nt, rows = [], sequence = 0\<rparr>"
  let ?d1 = "d\<lparr>tables := (tables d)(''ewcs_data_new'' \<mapsto> ?E)\<rparr>"
  let ?d2 = "?d1\<lparr>tables := (tables ?d1)(''ewcs_data_new'' \<mapsto> T')\<rparr>"
  let ?d3 = "?d2\<lparr>tables := (tables ?d2)(''ewcs_data'' := None),
                 indexes := drop_indexes_of ''ewcs_data'' (indexes ?d2)\<rparr>"
  let ?d4 = "?d3\<lparr>tables := (tables ?d3)(''ewcs_data_new'' := None, ''ewcs_data'' \<mapsto> T'),
                 indexes := move_indexes ''ewcs_data_new'' ''ewcs_data'' (indexes ?d3)\<rparr>"
  have q1: "sql env (CreateTable ''ewcs_data_new'' nt) d = Inr (?d1, Done)"
    using free by simp
  have q2: "sql env (InsertSelect ''ewcs_data_new'' (map cname nt) (map cname nt) ''ewcs_data'' None) ?d1
      = Inr (?d2, Changed (length (rows S)))"
    using S res ins columns_resolve_own[of nt "[]" 0]
    by (simp add: cond_resolves_def Let_def)
  have q3: "sql env (DropTable ''ewcs_data'') ?d2 = Inr (?d3, Done)"
    using S by simp
  have q4: "sql env (AlterTableRename ''ewcs_data_new'' ''ewcs_data'') ?d3 = Inr (?d4, Done)"
    using free by (simp add: drop_indexes_of_def)
  have "\<exists>d5 r5. sql env (CreateIndexIfNotExists ''idx_ewcs_data_timestamp'' ''ewcs_data'' [''timestamp'']) ?d4
      = Inr (d5, r5)"
    using free ts by (simp add: columns_resolve_def)
  then obtain d5 r5 where q5:
    "sql env (CreateIndexIfNotExists ''idx_ewcs_data_timestamp'' ''ewcs_data'' [''timestamp'']) ?d4 = Inr (d5, r5)"
    by blast
  have "run_sql env (drop_statements nt (map cname nt)) d = Inr d5"
    unfolding drop_statements_def using q1 q2 q3 q4 q5 by (simp del: sql.simps)
  then show ?thesis by blast
qed

section \<open>The claims\<close>

lemma scripts_cases:
  assumes "(c, nt, migrate) \<in> set column_drop_scripts"
  obtains cp where "migrate = guarded (drop_body c nt cp)" "cp = map cname nt"
    "c \<notin> set (map cname nt)"
  using assms
  by (auto simp: column_drop_scripts_def migrate_cs125_current_def migrate_power_save_mode_def
      cs125_copied_def cs125_new_table_def psm_copied_def psm_new_table_def plain_def)

lemma small_columns: "current_columns d_small = [''id'', ''timestamp'', ''cs125_current'']"
  by (simp add: current_columns_def d_small_def small_table_def plain_def)

lemma calm_faults [simp]: "faults calm l = None"
  by (simp add: calm_def)

lemma refusing_faults [simp]:
  "faults (refusing l why) x = (if x = l then Some (Refused why) else None)"
  by (simp add: refusing_def calm_def)

text \<open>
  C3 (as amended). When the column to remove is absent and the connect, \<^verbatim>\<open>BEGIN\<close> and
  \<^verbatim>\<open>PRAGMA\<close> calls succeed, a column-drop script begins a transaction, reads the column
  list, prints that there is nothing to migrate, issues no other statement, returns
  \<^verbatim>\<open>True\<close> and leaves the database as it was. The transaction it began is never
  committed.
\<close>

theorem absent_column_noop:
  assumes "(c, nt, migrate) \<in> set column_drop_scripts"
    and "c \<notin> set (current_columns d)"
    and "faults env Connect = None" "faults env Begin = None" "faults env TableInfo = None"
  shows "migrate env d =
    \<lparr>returned = Inr True, db_after = d,
     calls = [(Connect, None), (Begin, None), (TableInfo, None), (Close, None)],
     shown = [Say (c @ '' column not found in ewcs_data table. Nothing to migrate.'')]\<rparr>"
proof -
  from assms(1) obtain cp where m: "migrate = guarded (drop_body c nt cp)"
    by (rule scripts_cases)
  show ?thesis
    unfolding m using assms(2-) by (rule drop_absent)
qed

theorem absent_column_noop_witness:
  "(''power_save_mode'', psm_new_table, migrate_power_save_mode) \<in> set column_drop_scripts \<and>
   ''power_save_mode'' \<notin> set (current_columns d_small) \<and>
   faults calm Connect = None \<and> faults calm Begin = None \<and> faults calm TableInfo = None \<and>
   migrate_power_save_mode calm d_small =
    \<lparr>returned = Inr True, db_after = d_small,
     calls = [(Connect, None), (Begin, None), (TableInfo, None), (Close, None)],
     shown = [Say ''power_save_mode column not found in ewcs_data table. Nothing to migrate.'']\<rparr>"
proof -
  have a: "(''power_save_mode'', psm_new_table, migrate_power_save_mode) \<in> set column_drop_scripts"
    by (simp add: column_drop_scripts_def)
  have b: "''power_save_mode'' \<notin> set (current_columns d_small)"
    by (simp add: small_columns)
  show ?thesis
    using a b absent_column_noop[OF a b, of calm] by simp
qed

text \<open>
  C3 as stated fails: with the column absent, the script has begun a transaction
  before it looks at the columns.
\<close>

theorem absent_column_counterexample:
  "''power_save_mode'' \<notin> set (current_columns d_small) \<and>
   returned (migrate_power_save_mode calm d_small) = Inr True \<and>
   take 2 (calls (migrate_power_save_mode calm d_small)) = [(Connect, None), (Begin, None)]"
proof -
  have "migrate_power_save_mode calm d_small =
    \<lparr>returned = Inr True, db_after = d_small,
     calls = [(Connect, None), (Begin, None), (TableInfo, None), (Close, None)],
     shown = [Say ''power_save_mode column not found in ewcs_data table. Nothing to migrate.'']\<rparr>"
    using drop_absent[where c="''power_save_mode''" and d=d_small and env=calm
        and nt=psm_new_table and cp=psm_copied]
    by (simp add: small_columns migrate_power_save_mode_def)
  then show ?thesis by (simp add: small_columns)
qed

text \<open>
  C6. When \<^verbatim>\<open>sqlite3.connect\<close> raises, the handler prints the exception, and its
  \<^verbatim>\<open>if conn:\<close> then reads a variable that was never assigned: \<^verbatim>\<open>UnboundLocalError\<close> leaves
  the function and ends the process with exit code 1. The only call made on the
  database is the failed connect, so nothing is rolled back, and the file is as it was.
\<close>

theorem connect_failure:
  assumes "faults env Connect = Some e" and "fold_name response = ''y''"
  shows "main_cs125_current (Some response) env d =
    \<lparr>exit_code = 1,
     migration = Some \<lparr>returned = Inl (UnboundLocalError ''conn''), db_after = d,
                       calls = [(Connect, Some e)], shown = [SayError e]\<rparr>,
     console = [Say ''EWCS cs125_current Column Removal Script'',
                Say ''======================================='',
                SayError e]\<rparr>"
  using assms
  by (simp add: main_cs125_current_def migrate_cs125_current_def guarded_def connect_def exit_of_def)

theorem connect_failure_witness:
  "faults (refusing Connect ''unable to open database file'') Connect
     = Some (Refused ''unable to open database file'') \<and>
   fold_name ''Y'' = ''y'' \<and>
   exit_code (main_cs125_current (Some ''Y'') (refusing Connect ''unable to open database file'') d_small) = 1 \<and>
   map_option calls
     (migration (main_cs125_current (Some ''Y'') (refusing Connect ''unable to open database file'') d_small))
     = Some [(Connect, Some (Refused ''unable to open database file''))]"
proof -
  have a: "faults (refusing Connect ''unable to open database file'') Connect
     = Some (Refused ''unable to open database file'')"
    by simp
  have b: "fold_name ''Y'' = ''y''"
    by (simp add: fold_name_def)
  show ?thesis
    using a b connect_failure[OF a b, of d_small] by simp
qed

text \<open>
  C8. \<^verbatim>\<open>migrate_power_save_mode.py\<close> exits with 0 when the user cancels at the prompt,
  without calling the migration; once confirmed, it exits with 0 when no call of the
  migration raised and with 1 when one did. The migration returns \<^verbatim>\<open>True\<close> exactly when
  no call raised, and \<^verbatim>\<open>False\<close> exactly when one call after the connect raised and the
  handler caught it.
\<close>

theorem exit_codes:
  fixes argv stdin env d
  defines "p \<equiv> main_power_save_mode argv stdin env d"
    and "r \<equiv> migrate_power_save_mode env d"
  shows "(cancelled argv stdin \<longrightarrow> exit_code p = 0 \<and> migration p = None) \<and>
         (confirmed argv stdin \<longrightarrow>
            migration p = Some r \<and> exit_code p = (if raised r = [] then 0 else 1)) \<and>
         (returned r = Inr True \<longleftrightarrow> raised r = []) \<and>
         (returned r = Inr False \<longleftrightarrow> (\<exists>l e. raised r = [(l, e)] \<and> l \<noteq> Connect))"
proof -
  have rr: "(returned r = Inr True \<longleftrightarrow> raised r = []) \<and>
         (returned r = Inr False \<longleftrightarrow> (\<exists>l e. raised r = [(l, e)] \<and> l \<noteq> Connect)) \<and>
         (returned r \<noteq> Inr True \<and> returned r \<noteq> Inr False \<longleftrightarrow> (\<exists>e. raised r = [(Connect, e)]))"
    by (rule drop_returned_raised) (simp add: r_def migrate_power_save_mode_def)
  have ex: "exit_of r = (if raised r = [] then 0 else 1)"
    using rr by (cases "returned r") (auto simp: exit_of_def)
  have "cancelled argv stdin \<longrightarrow> exit_code p = 0 \<and> migration p = None"
    by (cases stdin) (auto simp: cancelled_def auto_confirmed_def p_def main_power_save_mode_def Let_def)
  moreover have "confirmed argv stdin \<longrightarrow>
      migration p = Some r \<and> exit_code p = (if raised r = [] then 0 else 1)"
    using ex
    by (cases stdin)
       (auto simp: confirmed_def auto_confirmed_def p_def r_def main_power_save_mode_def Let_def)
  ultimately show ?thesis using rr by blast
qed

theorem exit_codes_witness:
  "cancelled [''migrate_power_save_mode.py''] (Some ''n'') \<and>
   exit_code (main_power_save_mode [''migrate_power_save_mode.py''] (Some ''n'') calm d_small) = 0 \<and>
   confirmed [''migrate_power_save_mode.py'', ''-y''] None \<and>
   raised (migrate_power_save_mode calm d_small) = [] \<and>
   exit_code (main_power_save_mode [''migrate_power_save_mode.py'', ''-y''] None calm d_small) = 0 \<and>
   confirmed [''migrate_power_save_mode.py''] (Some ''y'') \<and>
   raised (migrate_power_save_mode (refusing Begin ''database is locked'') d_small)
     = [(Begin, Refused ''database is locked'')] \<and>
   exit_code (main_power_save_mode [''migrate_power_save_mode.py''] (Some ''y'')
                (refusing Begin ''database is locked'') d_small) = 1"
proof -
  have c1: "cancelled [''migrate_power_save_mode.py''] (Some ''n'')"
    by (simp add: cancelled_def auto_confirmed_def fold_name_def)
  have c2: "confirmed [''migrate_power_save_mode.py'', ''-y''] None"
    by (simp add: confirmed_def auto_confirmed_def)
  have c3: "confirmed [''migrate_power_save_mode.py''] (Some ''y'')"
    by (simp add: confirmed_def auto_confirmed_def fold_name_def)
  have r2: "raised (migrate_power_save_mode calm d_small) = []"
    using drop_absent[where c="''power_save_mode''" and d=d_small and env=calm
        and nt=psm_new_table and cp=psm_copied]
    by (simp add: small_columns migrate_power_save_mode_def raised_def)
  have r3: "raised (migrate_power_save_mode (refusing Begin ''database is locked'') d_small)
     = [(Begin, Refused ''database is locked'')]"
    by (simp add: migrate_power_save_mode_def drop_simps raised_def)
  show ?thesis
    using c1 c2 c3 r2 r3
      exit_codes[of "[''migrate_power_save_mode.py'']" "Some ''n''" calm d_small]
      exit_codes[of "[''migrate_power_save_mode.py'', ''-y'']" None calm d_small]
      exit_codes[of "[''migrate_power_save_mode.py'']" "Some ''y''" "refusing Begin ''database is locked''" d_small]
    by simp
qed




end
